theory Spec2Isabelle
  imports Complex_Main "HOL-Library.AList"
begin

section \<open>Strings\<close>

text \<open>
  A Go string is a sequence of bytes; it is modelled by \<open>string\<close>, a list of 8-bit
  characters. The functions below are the ones of Go's \<open>strings\<close> package that
  \<open>utils/adapter.go\<close> calls.

  \<open>strings.ToLower\<close> is modelled on bytes: the letters \<open>A\<close> to \<open>Z\<close> are mapped to
  \<open>a\<close> to \<open>z\<close> and every other byte is kept. This is what Go computes on every ASCII
  string, and on every valid UTF-8 string whose non-ASCII characters have no lower-case
  mapping of their own. Go's mapping of other non-ASCII characters is not modelled.
\<close>

definition isUpperByte :: "char \<Rightarrow> bool" where
  "isUpperByte c = ((65::nat) \<le> of_char c \<and> of_char c \<le> (90::nat))"

definition toLowerByte :: "char \<Rightarrow> char" where
  "toLowerByte c = (if isUpperByte c then char_of (of_char c + (32::nat)) else c)"

definition ToLower :: "string \<Rightarrow> string" where
  "ToLower s = map toLowerByte s"

definition HasPrefix :: "string \<Rightarrow> string \<Rightarrow> bool" where
  "HasPrefix s p = (take (length p) s = p)"

definition HasSuffix :: "string \<Rightarrow> string \<Rightarrow> bool" where
  "HasSuffix s p = (length p \<le> length s \<and> drop (length s - length p) s = p)"

fun Contains :: "string \<Rightarrow> string \<Rightarrow> bool" where
  "Contains [] sub = (sub = [])"
| "Contains (c # cs) sub = (HasPrefix (c # cs) sub \<or> Contains cs sub)"

text \<open>
  \<open>strings.ReplaceAll\<close> replaces the non-overlapping occurrences of \<open>old\<close>, found from the
  left. With an empty \<open>old\<close> Go inserts \<open>new\<close> in front of every character and at the end;
  the program never passes an empty \<open>old\<close>.
\<close>

function ReplaceAll :: "string \<Rightarrow> string \<Rightarrow> string \<Rightarrow> string" where
  "ReplaceAll s old new =
     (if old = [] then new @ concat (map (\<lambda>c. c # new) s)
      else if s = [] then []
      else if HasPrefix s old then new @ ReplaceAll (drop (length old) s) old new
      else hd s # ReplaceAll (tl s) old new)"
  by pat_completeness auto
termination
  by (relation "measure (\<lambda>(s, old, new). length s)") auto

declare ReplaceAll.simps [simp del]

definition TrimSuffix :: "string \<Rightarrow> string \<Rightarrow> string" where
  "TrimSuffix s suf = (if HasSuffix s suf then take (length s - length suf) s else s)"

definition TrimPrefix :: "string \<Rightarrow> string \<Rightarrow> string" where
  "TrimPrefix s p = (if HasPrefix s p then drop (length p) s else s)"

section \<open>The name sanitizer\<close>

text \<open>
  The loop \<open>for strings.Contains(s, "__") { s = strings.ReplaceAll(s, "__", "_") }\<close> of
  \<open>sanitizeToolName\<close>. Every round shortens the string, so the loop ends.
\<close>

function collapseUnderscores :: "string \<Rightarrow> string" where
  "collapseUnderscores s =
     (if Contains s ''__'' then collapseUnderscores (ReplaceAll s ''__'' ''_'') else s)"
  by pat_completeness auto
termination
proof (relation "measure length")
  show "wf (measure length)" by simp
next
  fix s :: string
  assume found: "Contains s ''__''"
  have step: "ReplaceAll (c # cs) ''__'' ''_'' =
      (if HasPrefix (c # cs) ''__'' then ''_'' @ ReplaceAll (drop 2 (c # cs)) ''__'' ''_''
       else c # ReplaceAll cs ''__'' ''_'')" for c cs
    by (subst ReplaceAll.simps) simp
  have le: "length (ReplaceAll t ''__'' ''_'') \<le> length t" for t
  proof (induction "length t" arbitrary: t rule: less_induct)
    case less
    show ?case
    proof (cases t)
      case Nil
      then show ?thesis by (subst ReplaceAll.simps) simp
    next
      case (Cons c cs)
      show ?thesis
      proof (cases "HasPrefix (c # cs) ''__''")
        case True
        then obtain r where r: "cs = CHR ''_'' # r" by (cases cs) (auto simp: HasPrefix_def)
        have "length (ReplaceAll r ''__'' ''_'') \<le> length r"
          using less [of r] Cons r by simp
        then show ?thesis using Cons True r by (simp add: step)
      next
        case False
        have "length (ReplaceAll cs ''__'' ''_'') \<le> length cs"
          using less [of cs] Cons by simp
        then show ?thesis using Cons False by (simp add: step)
      qed
    qed
  qed
  have "length (ReplaceAll s ''__'' ''_'') < length s" using found
  proof (induction s)
    case Nil
    then show ?case by simp
  next
    case (Cons c cs)
    show ?case
    proof (cases "HasPrefix (c # cs) ''__''")
      case True
      then obtain r where r: "cs = CHR ''_'' # r" by (cases cs) (auto simp: HasPrefix_def)
      have "length (ReplaceAll r ''__'' ''_'') \<le> length r" by (rule le)
      then show ?thesis using True r by (simp add: step)
    next
      case False
      then have "Contains cs ''__''" using Cons.prems by simp
      then show ?thesis using Cons.IH False by (simp add: step)
    qed
  qed
  then show "(ReplaceAll s ''__'' ''_'', s) \<in> measure length" by simp
qed

declare collapseUnderscores.simps [simp del]

definition sanitizeToolName :: "string \<Rightarrow> string" where
  "sanitizeToolName name =
     (let s = ToLower name;
          s = ReplaceAll s '' '' ''_'';
          s = ReplaceAll s ''-'' ''_'';
          s = ReplaceAll s ''/'' ''_'';
          s = ReplaceAll s ''.'' ''_'';
          s = ReplaceAll s ''{'' '''';
          s = ReplaceAll s ''}'' '''';
          s = ReplaceAll s '':'' ''_'';
          s = ReplaceAll s ''?'' '''';
          s = ReplaceAll s ''&'' ''and'';
          s = ReplaceAll s ''='' ''_eq_'';
          s = ReplaceAll s ''%'' ''_pct_'';
          s = collapseUnderscores s;
          s = TrimSuffix s ''_'';
          s = TrimPrefix s ''_''
      in if s = [] then ''unnamed_tool'' else s)"





section \<open>The schema translator\<close>

text \<open>
  The values of Go's \<open>interface{}\<close> that JSON and YAML decoding produce.
\<close>

datatype jvalue =
    JNull
  | JBool bool
  | JNum rat
  | JStr string
  | JArr "jvalue list"
  | JObj "(string \<times> jvalue) list"

text \<open>
  Modelled from the spec: the operation, parameter, request-body and schema types of the
  parser (\<open>OpenAPIParser\<close>), whose declarations are not in \<open>utils/adapter.go\<close>. The
  data model of the specification (operation, parameter and request-body descriptors,
  property schema) and the field accesses of \<open>NewMCPFromCustomParser\<close> fix the fields
  below, which carry their Go names. A slice,
  map, pointer or interface field that the code compares with \<open>nil\<close> is an \<open>option\<close>.
  A Go map that the code ranges over is an association list: the order of the list stands
  for the order in which the runtime visits the map.
\<close>

datatype schema = Schema
  (Type: string)
  (Description: string)
  (Enum: "jvalue list option")
  (Format: string)
  (Default: "jvalue option")
  (Items: "schema option")
  (Properties: "(string \<times> schema) list option")
  (Required: "string list")

record parameter =
  param_Name :: string
  param_In :: string
  param_Required :: bool
  param_Description :: string
  param_Schema :: schema

text \<open>
  \<open>api_RequestBody\<close> is \<open>None\<close> for a nil \<open>RequestBody\<close>; otherwise it holds the
  \<open>Content\<close> map, each media type with its schema pointer (\<open>None\<close> when nil).
\<close>

record operation =
  api_OperationID :: string
  api_Summary :: string
  api_Description :: string
  api_Method :: string
  api_Path :: string
  api_Parameters :: "parameter list"
  api_RequestBody :: "(string \<times> schema option) list option"

text \<open>
  The property object \<open>prop\<close> that the translator builds for a parameter or a body
  property: the keys \<open>type\<close> and \<open>description\<close> are always set, the others only under
  the guards of the source.
\<close>

record property =
  prop_type :: string
  prop_description :: string
  prop_enum :: "jvalue list option"
  prop_format :: "string option"
  prop_default :: "jvalue option"
  prop_items :: "schema option"
  prop_properties :: "(string \<times> schema) list option"

text \<open>
  What one call \<open>mcp.WithObject(name, mcp.Description(d), mcp.Properties(ps), ...)\<close> adds
  to the tool: an object-valued argument with its description, its property map and its
  list of required names. A tool holds at most one such group under each of the three names.
\<close>

record object_group =
  group_description :: string
  group_properties :: "(string \<times> property) list"
  group_required :: "string list"

record tool =
  tool_name :: string
  tool_description :: string
  tool_searchParams :: "object_group option"
  tool_pathNames :: "object_group option"
  tool_requestBody :: "object_group option"

definition prefixRequired :: "bool \<Rightarrow> string \<Rightarrow> string" where
  "prefixRequired isRequired desc =
     (if isRequired \<and> \<not> HasPrefix desc ''[required]'' then ''[required] '' @ desc else desc)"

fun isRequiredField :: "string \<Rightarrow> string list \<Rightarrow> bool" where
  "isRequiredField field [] = False"
| "isRequiredField field (name # requiredList) =
     (if name = field then True else isRequiredField field requiredList)"

text \<open>The map literal \<open>prop\<close> and the five guarded assignments that follow it.\<close>

definition newProp :: "string \<Rightarrow> schema \<Rightarrow> property" where
  "newProp desc sch =
     \<lparr> prop_type = Type sch,
       prop_description = desc,
       prop_enum = Enum sch,
       prop_format = (if Format sch \<noteq> [] then Some (Format sch) else None),
       prop_default = Default sch,
       prop_items = Items sch,
       prop_properties = Properties sch \<rparr>"

text \<open>The loop over \<open>api.Parameters\<close>, its four variables as a record.\<close>

record param_groups =
  queryProps :: "(string \<times> property) list"
  requiredQueryParams :: "string list"
  pathProps :: "(string \<times> property) list"
  requiredPathParams :: "string list"

definition paramStep :: "parameter \<Rightarrow> param_groups \<Rightarrow> param_groups" where
  "paramStep param st =
     (let p = newProp (prefixRequired (param_Required param) (param_Description param))
                (param_Schema param)
      in if param_In param = ''query'' then
           st\<lparr> queryProps := AList.update (param_Name param) p (queryProps st),
               requiredQueryParams :=
                 (if param_Required param then requiredQueryParams st @ [param_Name param]
                  else requiredQueryParams st) \<rparr>
         else if param_In param = ''path'' then
           st\<lparr> pathProps := AList.update (param_Name param) p (pathProps st),
               requiredPathParams :=
                 (if param_Required param then requiredPathParams st @ [param_Name param]
                  else requiredPathParams st) \<rparr>
         else st)"

definition paramLoop :: "parameter list \<Rightarrow> param_groups" where
  "paramLoop params =
     fold paramStep params
       \<lparr> queryProps = [], requiredQueryParams = [], pathProps = [], requiredPathParams = [] \<rparr>"

text \<open>The two nested loops over the media types and their schema properties.\<close>

record body_group =
  bodyProps :: "(string \<times> property) list"
  requiredBodyParams :: "string list"

definition schemaProps :: "schema \<Rightarrow> (string \<times> schema) list" where
  "schemaProps sch = (case Properties sch of None \<Rightarrow> [] | Some ps \<Rightarrow> ps)"

definition bodyPropStep :: "string list \<Rightarrow> string \<times> schema \<Rightarrow> body_group \<Rightarrow> body_group" where
  "bodyPropStep required entry st =
     (let propName = fst entry; propSchema = snd entry;
          p = newProp (prefixRequired (isRequiredField propName required) (Description propSchema))
                propSchema
      in st\<lparr> bodyProps := AList.update propName p (bodyProps st),
             requiredBodyParams :=
               (if isRequiredField propName required then requiredBodyParams st @ [propName]
                else requiredBodyParams st) \<rparr>)"

definition mediaTypeStep :: "string \<times> schema option \<Rightarrow> body_group \<Rightarrow> body_group" where
  "mediaTypeStep mediaType st =
     (case snd mediaType of
        None \<Rightarrow> st
      | Some sch \<Rightarrow> fold (bodyPropStep (Required sch)) (schemaProps sch) st)"

definition bodyLoop :: "(string \<times> schema option) list \<Rightarrow> body_group" where
  "bodyLoop content = fold mediaTypeStep content \<lparr> bodyProps = [], requiredBodyParams = [] \<rparr>"

text \<open>
  The body of the loop over \<open>parser.APIs()\<close> in \<open>NewMCPFromCustomParser\<close>, up to
  \<open>mcp.NewTool\<close>: the tool that is registered for one operation.
\<close>

definition translateOperation :: "string \<Rightarrow> operation \<Rightarrow> tool" where
  "translateOperation pfx api =
     (let st = paramLoop (api_Parameters api) in
      \<lparr> tool_name = sanitizeToolName (pfx @ ''_'' @ api_OperationID api),
        tool_description =
          api_OperationID api @ '' '' @ api_Summary api @ '' '' @ api_Description api,
        tool_searchParams =
          (if queryProps st \<noteq> [] then
             Some \<lparr> group_description = ''url parameters for the tool'',
                    group_properties = queryProps st,
                    group_required = requiredQueryParams st \<rparr>
           else None),
        tool_pathNames =
          (if pathProps st \<noteq> [] then
             Some \<lparr> group_description = ''path parameters for the tool'',
                    group_properties = pathProps st,
                    group_required = requiredPathParams st \<rparr>
           else None),
        tool_requestBody =
          (case api_RequestBody api of
             None \<Rightarrow> None
           | Some content \<Rightarrow>
               if content \<noteq> [] then
                 (let b = bodyLoop content in
                  Some \<lparr> group_description = ''request body for the tool'',
                         group_properties = bodyProps b,
                         group_required = requiredBodyParams b \<rparr>)
               else None) \<rparr>)"

text \<open>
  The tools that \<open>NewMCPFromCustomParser\<close> registers, in the order of \<open>parser.APIs()\<close>,
  for a document with the given title. Each tool is registered with the handler
  \<open>NewToolHandler(api.Method, baseURL+api.Path, extraHeaders)\<close> of the next section.
\<close>

definition NewMCPFromCustomParser :: "string \<Rightarrow> operation list \<Rightarrow> tool list" where
  "NewMCPFromCustomParser title apis = map (translateOperation (sanitizeToolName title)) apis"



text \<open>Operations used as concrete inputs.\<close>

definition uploadOperation :: operation where
  "uploadOperation =
     \<lparr> api_OperationID = ''uploadFile'', api_Summary = ''Upload a file'', api_Description = [],
       api_Method = ''POST'', api_Path = ''/files'', api_Parameters = [],
       api_RequestBody =
         Some [(''application/octet-stream'',
                Some (Schema ''string'' [] None ''binary'' None None None []))] \<rparr>"

definition stringSchema :: "string \<Rightarrow> schema" where
  "stringSchema d = Schema ''string'' d None '''' None None None []"

definition updateUserOperation :: operation where
  "updateUserOperation =
     \<lparr> api_OperationID = ''updateUser'', api_Summary = ''Update a user'', api_Description = '''',
       api_Method = ''PUT'', api_Path = ''/users/{id}'',
       api_Parameters =
         [\<lparr> param_Name = ''id'', param_In = ''path'', param_Required = True,
             param_Description = ''user id'', param_Schema = stringSchema '''' \<rparr>,
          \<lparr> param_Name = ''verbose'', param_In = ''query'', param_Required = False,
             param_Description = ''more output'', param_Schema = stringSchema '''' \<rparr>],
       api_RequestBody =
         Some [(''application/json'',
                Some (Schema ''object'' '''' None '''' None None
                        (Some [(''name'', stringSchema ''[required] display name'')])
                        [''name'']))] \<rparr>"

section \<open>The request dispatcher\<close>

text \<open>
  The arguments of an invocation, \<open>request.Params.Arguments\<close>, are a Go map from strings
  to the values that JSON decoding produces: an association list of \<open>jvalue\<close>s, a nested
  object being a \<open>JObj\<close>. As before, the order of an association list stands for the
  order in which a \<open>range\<close> loop visits the map, which the Go runtime is free to choose;
  the keys of a map are distinct.

  Go maps are references. When none of the three groups holds an entry, the handler writes
  the top-level arguments into \<open>pathParams\<close> and \<open>bodyParams\<close>; a group variable that
  was assigned the caller's (empty) nested map then is that very map, and the top-level
  argument stored under the group's key is a reference to the parameter set itself. Such a
  stored value is \<open>Shared g\<close>; every other stored value is a \<open>Plain\<close> decoded value,
  which nothing writes to.
\<close>

datatype group = PathNames | SearchParams | RequestBody

datatype arg = Plain jvalue | Shared group

record classified =
  pathParams :: "(string \<times> arg) list"
  queryParams :: "(string \<times> arg) list"
  bodyParams :: "(string \<times> arg) list"

text \<open>
  What a library function is handed: a decoded value, or one of the three live parameter
  sets (with the contents of all three, which it can reach through \<open>Shared\<close> entries).
\<close>

datatype dyn = Tree jvalue | Live group classified

definition view :: "classified \<Rightarrow> arg \<Rightarrow> dyn" where
  "view cls a = (case a of Plain v \<Rightarrow> Tree v | Shared g \<Rightarrow> Live g cls)"

fun plainValue :: "arg \<Rightarrow> jvalue option" where
  "plainValue (Plain v) = Some v"
| "plainValue (Shared g) = None"

text \<open>The map \<open>bodyParams\<close> as \<open>json.Marshal\<close> sees it.\<close>

definition bodyView :: "classified \<Rightarrow> dyn" where
  "bodyView cls =
     (if list_all (\<lambda>e. plainValue (snd e) \<noteq> None) (bodyParams cls)
      then Tree (JObj (map (\<lambda>e. (fst e, the (plainValue (snd e)))) (bodyParams cls)))
      else Live RequestBody cls)"

text \<open>
  \<open>net/url.URL\<close>: the field \<open>RawQuery\<close>, which the handler assigns, and the other fields
  as one opaque component. \<open>url.Values\<close> maps a key to its list of values. \<open>http.Header\<close>
  maps a canonical key to its list of values.
\<close>

record 'u URL =
  RawQuery :: string
  otherFields :: 'u

type_synonym "values" = "string \<rightharpoonup> string list"

type_synonym header = "(string \<times> string list) list"

record request =
  req_Method :: string
  req_URL :: string
  req_Body :: "string option"
  req_Header :: header

text \<open>
  An HTTP response: its status code and what \<open>io.ReadAll(resp.Body)\<close> gives, the text of
  an error (\<open>Inl\<close>) or the bytes of the body.
\<close>

record response =
  StatusCode :: int
  Body :: "string + string"

text \<open>
  The functions of the Go standard library that the handler calls are parameters of the
  model. A Go \<open>error\<close> is modelled by its text, the way \<open>%v\<close> prints it.
  \<^item> \<open>fmtValue\<close>: \<open>fmt.Sprintf("%v", v)\<close>;
  \<^item> \<open>urlParse\<close>: \<open>neturl.Parse\<close>;
  \<^item> \<open>parseQuery\<close>: what \<open>parsedURL.Query()\<close> makes of \<open>RawQuery\<close>;
  \<^item> \<open>valuesEncode\<close>: \<open>q.Encode()\<close>;
  \<^item> \<open>urlString\<close>: \<open>parsedURL.String()\<close>;
  \<^item> \<open>jsonMarshal\<close>: \<open>json.Marshal\<close>;
  \<^item> \<open>newRequestError\<close>: the error of \<open>http.NewRequestWithContext\<close> for a method and
    a URL, \<open>None\<close> when the request is created;
  \<^item> \<open>canonicalHeaderKey\<close>: the canonical form under which \<open>Header.Set\<close> stores a key;
  \<^item> \<open>clientDo\<close>: \<open>client.Do\<close>.
\<close>

record 'u lib =
  fmtValue :: "dyn \<Rightarrow> string"
  urlParse :: "string \<Rightarrow> string + 'u URL"
  parseQuery :: "string \<Rightarrow> values"
  valuesEncode :: "values \<Rightarrow> string"
  urlString :: "'u URL \<Rightarrow> string"
  jsonMarshal :: "dyn \<Rightarrow> string + string"
  newRequestError :: "string \<Rightarrow> string \<Rightarrow> string option"
  canonicalHeaderKey :: "string \<Rightarrow> string"
  clientDo :: "request \<Rightarrow> string + response"



text \<open>The type assertion \<open>params[key].(map[string]interface{})\<close>.\<close>

definition groupMap :: "(string \<times> jvalue) list \<Rightarrow> string \<Rightarrow> (string \<times> jvalue) list option" where
  "groupMap params key =
     (case map_of params key of Some (JObj m) \<Rightarrow> Some m | _ \<Rightarrow> None)"

text \<open>A group variable after its \<open>if ..., ok := ...; ok\<close> statement: the nested map, or
  the empty map made before.\<close>

definition groupOrEmpty :: "(string \<times> jvalue) list \<Rightarrow> string \<Rightarrow> (string \<times> jvalue) list" where
  "groupOrEmpty params key = (case groupMap params key of Some m \<Rightarrow> m | None \<Rightarrow> [])"

text \<open>The condition \<open>len(pathParams) == 0 && len(queryParams) == 0 && len(bodyParams) == 0\<close>.\<close>

definition groupsEmpty :: "(string \<times> jvalue) list \<Rightarrow> bool" where
  "groupsEmpty params =
     (groupOrEmpty params ''pathNames'' = [] \<and> groupOrEmpty params ''searchParams'' = []
      \<and> groupOrEmpty params ''requestBody'' = [])"

text \<open>\<open>fmt.Sprintf("{%s}", paramName)\<close>.\<close>

definition placeholderOf :: "string \<Rightarrow> string" where
  "placeholderOf paramName = ''{'' @ paramName @ ''}''"

text \<open>
  The value that the fallback loop stores for a top-level argument. The loop runs only
  when the three groups are empty, so a nested map under a group key is the map that the
  group variable was assigned.
\<close>

definition storedValue :: "string \<Rightarrow> jvalue \<Rightarrow> arg" where
  "storedValue paramName paramValue =
     (case paramValue of
        JObj m \<Rightarrow>
          (if paramName = ''pathNames'' then Shared PathNames
           else if paramName = ''searchParams'' then Shared SearchParams
           else if paramName = ''requestBody'' then Shared RequestBody
           else Plain paramValue)
      | _ \<Rightarrow> Plain paramValue)"

definition legacyStep :: "string \<Rightarrow> string \<times> jvalue \<Rightarrow> classified \<Rightarrow> classified" where
  "legacyStep url entry cls =
     (let paramName = fst entry; paramValue = storedValue (fst entry) (snd entry) in
      if Contains url (placeholderOf paramName)
      then cls\<lparr> pathParams := AList.update paramName paramValue (pathParams cls) \<rparr>
      else cls\<lparr> bodyParams := AList.update paramName paramValue (bodyParams cls) \<rparr>)"

definition plainEntries :: "(string \<times> jvalue) list \<Rightarrow> (string \<times> arg) list" where
  "plainEntries m = map (\<lambda>e. (fst e, Plain (snd e))) m"

text \<open>The first part of the handler: the three parameter sets.\<close>

definition classify :: "string \<Rightarrow> (string \<times> jvalue) list \<Rightarrow> classified" where
  "classify url params =
     (let pathParams = groupOrEmpty params ''pathNames'';
          queryParams = groupOrEmpty params ''searchParams'';
          bodyParams = groupOrEmpty params ''requestBody''
      in if pathParams = [] \<and> queryParams = [] \<and> bodyParams = []
         then fold (legacyStep url) params
                \<lparr> pathParams = [], queryParams = [], bodyParams = [] \<rparr>
         else \<lparr> pathParams = plainEntries pathParams,
                queryParams = plainEntries queryParams,
                bodyParams = plainEntries bodyParams \<rparr>)"

text \<open>The type switch of the loop over \<open>pathParams\<close>.\<close>

definition renderPathValue :: "'u lib \<Rightarrow> classified \<Rightarrow> arg \<Rightarrow> string" where
  "renderPathValue lib cls paramValue =
     (case paramValue of
        Plain (JStr v) \<Rightarrow> v
      | Plain JNull \<Rightarrow> []
      | _ \<Rightarrow> fmtValue lib (view cls paramValue))"

definition pathStep :: "'u lib \<Rightarrow> classified \<Rightarrow> string \<times> arg \<Rightarrow> string \<Rightarrow> string" where
  "pathStep lib cls entry finalURL =
     (let placeholder = placeholderOf (fst entry) in
      if Contains finalURL placeholder
      then ReplaceAll finalURL placeholder (renderPathValue lib cls (snd entry))
      else finalURL)"

definition resolvePath :: "'u lib \<Rightarrow> classified \<Rightarrow> string \<Rightarrow> string" where
  "resolvePath lib cls url = fold (pathStep lib cls) (pathParams cls) url"

text \<open>\<open>q.Add(key, v)\<close>.\<close>

definition valuesAdd :: "values \<Rightarrow> string \<Rightarrow> string \<Rightarrow> values" where
  "valuesAdd q key v = q(key \<mapsto> (case q key of None \<Rightarrow> [] | Some vs \<Rightarrow> vs) @ [v])"

text \<open>The body of the loop over \<open>queryParams\<close>; \<open>continue\<close> leaves the values as they are.\<close>

definition queryStep :: "'u lib \<Rightarrow> classified \<Rightarrow> string \<times> arg \<Rightarrow> values \<Rightarrow> values" where
  "queryStep lib cls entry q =
     (case snd entry of
        Plain (JStr v) \<Rightarrow> valuesAdd q (fst entry) v
      | Plain JNull \<Rightarrow> q
      | _ \<Rightarrow> valuesAdd q (fst entry) (fmtValue lib (view cls (snd entry))))"

text \<open>The block \<open>if len(queryParams) > 0\<close>: the text of the early return, or the URL.\<close>

definition addQuery :: "'u lib \<Rightarrow> classified \<Rightarrow> string \<Rightarrow> string + string" where
  "addQuery lib cls finalURL =
     (if queryParams cls \<noteq> [] then
        (case urlParse lib finalURL of
           Inl err \<Rightarrow> Inl (''Error parsing URL: '' @ err)
         | Inr parsedURL \<Rightarrow>
             (let q = fold (queryStep lib cls) (queryParams cls)
                        (parseQuery lib (RawQuery parsedURL))
              in Inr (urlString lib (parsedURL\<lparr> RawQuery := valuesEncode lib q \<rparr>))))
      else Inr finalURL)"

text \<open>The block \<open>if len(bodyParams) > 0\<close>: the early return, or \<open>reqBody\<close>.\<close>

definition marshalBody :: "'u lib \<Rightarrow> classified \<Rightarrow> string + string option" where
  "marshalBody lib cls =
     (if bodyParams cls \<noteq> [] then
        (case jsonMarshal lib (bodyView cls) of
           Inl err \<Rightarrow> Inl (''Error marshaling body parameters: '' @ err)
         | Inr jsonParams \<Rightarrow> Inr (Some jsonParams))
      else Inr None)"

text \<open>\<open>req.Header.Set(key, value)\<close>, and the headers of the request after the two
  statements that set them. A new request has no header.\<close>

definition headerSet :: "'u lib \<Rightarrow> string \<times> string \<Rightarrow> header \<Rightarrow> header" where
  "headerSet lib kv h = AList.update (canonicalHeaderKey lib (fst kv)) [snd kv] h"

definition setHeaders :: "'u lib \<Rightarrow> string option \<Rightarrow> (string \<times> string) list \<Rightarrow> header" where
  "setHeaders lib reqBody extraHeaders =
     fold (headerSet lib) extraHeaders
       (if reqBody \<noteq> None then headerSet lib (''Content-Type'', ''application/json'') [] else [])"

text \<open>The handler up to \<open>client.Do\<close>: the text of an early return, or the request.\<close>

definition buildRequest ::
  "'u lib \<Rightarrow> string \<Rightarrow> string \<Rightarrow> (string \<times> string) list \<Rightarrow> (string \<times> jvalue) list
     \<Rightarrow> string + request" where
  "buildRequest lib method url extraHeaders params =
     (let cls = classify url params in
      case addQuery lib cls (resolvePath lib cls url) of
        Inl msg \<Rightarrow> Inl msg
      | Inr finalURL \<Rightarrow>
          (case marshalBody lib cls of
             Inl msg \<Rightarrow> Inl msg
           | Inr reqBody \<Rightarrow>
               (case newRequestError lib method finalURL of
                  Some err \<Rightarrow> Inl (''Error creating request: '' @ err)
                | None \<Rightarrow>
                    Inr \<lparr> req_Method = method, req_URL = finalURL, req_Body = reqBody,
                          req_Header = setHeaders lib reqBody extraHeaders \<rparr>)))"


subsection \<open>What the specification says, for comparison\<close>




text \<open>
  The text that the query loop adds for a value (\<open>None\<close>: the value is skipped), and the
  values after the loop, key by key: those parsed from the URL, followed by the one added.
\<close>

definition renderQueryValue :: "'u lib \<Rightarrow> classified \<Rightarrow> arg \<Rightarrow> string option" where
  "renderQueryValue lib cls a =
     (case a of
        Plain (JStr v) \<Rightarrow> Some v
      | Plain JNull \<Rightarrow> None
      | _ \<Rightarrow> Some (fmtValue lib (view cls a)))"

definition queryValues :: "'u lib \<Rightarrow> classified \<Rightarrow> values \<Rightarrow> values" where
  "queryValues lib cls existing =
     (\<lambda>key. case map_of (queryParams cls) key of
        None \<Rightarrow> existing key
      | Some a \<Rightarrow>
          (case renderQueryValue lib cls a of
             None \<Rightarrow> existing key
           | Some v \<Rightarrow> Some ((case existing key of None \<Rightarrow> [] | Some vs \<Rightarrow> vs) @ [v])))"

text \<open>
  A path template as the specification describes it: literal characters and placeholders
  \<open>{name}\<close>. In a well-formed template no literal character is an opening brace and no
  name holds a brace. \<open>substituteAll\<close> replaces all placeholders at once: a placeholder
  with a parameter of its name by the rendered value, any other placeholder by itself.
\<close>

datatype token = Lit char | Hole string

definition tokenText :: "token \<Rightarrow> string" where
  "tokenText t = (case t of Lit c \<Rightarrow> [c] | Hole n \<Rightarrow> placeholderOf n)"

definition templateText :: "token list \<Rightarrow> string" where
  "templateText ts = concat (map tokenText ts)"

definition braceFree :: "string \<Rightarrow> bool" where
  "braceFree n = (CHR ''{'' \<notin> set n \<and> CHR ''}'' \<notin> set n)"

definition wellFormedToken :: "token \<Rightarrow> bool" where
  "wellFormedToken t = (case t of Lit c \<Rightarrow> c \<noteq> CHR ''{'' | Hole n \<Rightarrow> braceFree n)"

definition substituteToken :: "'u lib \<Rightarrow> classified \<Rightarrow> (string \<times> arg) list \<Rightarrow> token \<Rightarrow> string" where
  "substituteToken lib cls P t =
     (case t of
        Lit c \<Rightarrow> [c]
      | Hole n \<Rightarrow>
          (case map_of P n of
             Some a \<Rightarrow> renderPathValue lib cls a
           | None \<Rightarrow> placeholderOf n))"


text \<open>One step of the path loop on the tokens of a template, for the proofs.\<close>

definition stepToken :: "string \<Rightarrow> string \<Rightarrow> token \<Rightarrow> token list" where
  "stepToken n v t = (if t = Hole n then map Lit v else [t])"

subsection \<open>Concrete inputs\<close>

text \<open>
  A concrete choice of the library functions, small enough to evaluate: numbers print as
  \<open>42\<close> (the only number in the examples), a URL is parsed into an empty query and the
  text before it, the encoder writes the keys \<open>q\<close> and \<open>skip\<close> with spaces as \<open>+\<close>, and
  the server answers every request with status 404 and the body \<open>not found\<close>.
\<close>

definition quoted :: "string \<Rightarrow> string" where
  "quoted s = CHR 0x22 # s @ [CHR 0x22]"

definition exampleLib :: "string lib" where
  "exampleLib =
     \<lparr> fmtValue = (\<lambda>d. case d of Tree (JStr s) \<Rightarrow> s | _ \<Rightarrow> ''42''),
       urlParse = (\<lambda>s. Inr \<lparr> RawQuery = [], otherFields = s \<rparr>),
       parseQuery = (\<lambda>raw. Map.empty),
       valuesEncode =
         (\<lambda>q. concat (map (\<lambda>k. case q k of
                                  None \<Rightarrow> []
                                | Some vs \<Rightarrow>
                                    k @ ''='' @ map (\<lambda>c. if c = CHR '' '' then CHR ''+'' else c) (concat vs))
                        [''q'', ''skip''])),
       urlString = (\<lambda>u. otherFields u @ (if RawQuery u = [] then [] else ''?'' @ RawQuery u)),
       jsonMarshal =
         (\<lambda>d. case d of
                 Tree (JObj [(k, JStr v)]) \<Rightarrow> Inr (''{'' @ quoted k @ '':'' @ quoted v @ ''}'')
               | _ \<Rightarrow> Inl ''unsupported value''),
       newRequestError = (\<lambda>method url. if method = ''BAD METHOD'' then Some ''invalid method'' else None),
       canonicalHeaderKey = (\<lambda>k. k),
       clientDo = (\<lambda>req. Inr \<lparr> StatusCode = 404, Body = Inr ''not found'' \<rparr>) \<rparr>"



definition searchQuery :: classified where
  "searchQuery =
     \<lparr> pathParams = [],
       queryParams = [(''q'', Plain (JStr ''a b'')), (''skip'', Plain JNull)],
       bodyParams = [] \<rparr>"






definition createArgs :: "(string \<times> jvalue) list" where
  "createArgs = [(''requestBody'', JObj [(''name'', JStr ''x'')])]"







section \<open>Lemmas on the string functions\<close>

lemma ReplaceAll_Nil [simp]: "old \<noteq> [] \<Longrightarrow> ReplaceAll [] old new = []"
  by (simp add: ReplaceAll.simps)

lemma ReplaceAll_Cons:
  "old \<noteq> [] \<Longrightarrow> ReplaceAll (c # cs) old new =
     (if HasPrefix (c # cs) old then new @ ReplaceAll (drop (length old) (c # cs)) old new
      else c # ReplaceAll cs old new)"
  by (subst ReplaceAll.simps) simp

lemma HasPrefix_iff: "HasPrefix s p \<longleftrightarrow> (\<exists>ys. s = p @ ys)"
  unfolding HasPrefix_def
  by (metis append_eq_conv_conj append_take_drop_id)


lemma ReplaceAll_absent:
  "old \<noteq> [] \<Longrightarrow> \<not> Contains s old \<Longrightarrow> ReplaceAll s old new = s"
  by (induction s) (auto simp: ReplaceAll_Cons)























section \<open>Lemmas on the sanitizer\<close>


















lemma sanitize_a_and_b: "sanitizeToolName ''A & B'' = ''a_and_b''"
  by code_simp

lemma sanitize_empty: "sanitizeToolName '''' = ''unnamed_tool''"
  by code_simp

lemma sanitize_underscores: "sanitizeToolName ''___'' = ''unnamed_tool''"
  by code_simp


section \<open>Lemmas on the translator\<close>











lemma translate_searchParams:
  "tool_searchParams (translateOperation pfx api) =
     (if queryProps (paramLoop (api_Parameters api)) \<noteq> [] then
        Some \<lparr> group_description = ''url parameters for the tool'',
               group_properties = queryProps (paramLoop (api_Parameters api)),
               group_required = requiredQueryParams (paramLoop (api_Parameters api)) \<rparr>
      else None)"
  by (simp add: translateOperation_def Let_def)

lemma translate_pathNames:
  "tool_pathNames (translateOperation pfx api) =
     (if pathProps (paramLoop (api_Parameters api)) \<noteq> [] then
        Some \<lparr> group_description = ''path parameters for the tool'',
               group_properties = pathProps (paramLoop (api_Parameters api)),
               group_required = requiredPathParams (paramLoop (api_Parameters api)) \<rparr>
      else None)"
  by (simp add: translateOperation_def Let_def)

lemma translate_requestBody:
  "tool_requestBody (translateOperation pfx api) =
     (case api_RequestBody api of
        None \<Rightarrow> None
      | Some content \<Rightarrow>
          if content \<noteq> [] then
            Some \<lparr> group_description = ''request body for the tool'',
                   group_properties = bodyProps (bodyLoop content),
                   group_required = requiredBodyParams (bodyLoop content) \<rparr>
          else None)"
  by (simp add: translateOperation_def Let_def split: option.splits)

text \<open>
  The two parameter groups are left out when their property map is empty: a group that is
  present has at least one property.
\<close>

lemma parameter_groups_nonempty:
  "tool_searchParams (translateOperation pfx api) = Some g \<Longrightarrow> group_properties g \<noteq> []"
  "tool_pathNames (translateOperation pfx api) = Some g \<Longrightarrow> group_properties g \<noteq> []"
  by (auto simp: translate_searchParams translate_pathNames split: if_splits)


lemma updateUser_requestBody:
  "tool_requestBody (translateOperation ''api'' updateUserOperation) =
     Some \<lparr> group_description = ''request body for the tool'',
            group_properties =
              [(''name'', newProp ''[required] display name'' (stringSchema ''[required] display name''))],
            group_required = [''name''] \<rparr>"
  by (simp add: translate_requestBody updateUserOperation_def bodyLoop_def mediaTypeStep_def
      bodyPropStep_def schemaProps_def stringSchema_def prefixRequired_def HasPrefix_def Let_def)

section \<open>Lemmas on the dispatcher\<close>

subsection \<open>Classification\<close>



lemma classify_grouped:
  "\<not> groupsEmpty params \<Longrightarrow>
   classify url params =
     \<lparr> pathParams = plainEntries (groupOrEmpty params ''pathNames''),
       queryParams = plainEntries (groupOrEmpty params ''searchParams''),
       bodyParams = plainEntries (groupOrEmpty params ''requestBody'') \<rparr>"
  by (auto simp: classify_def groupsEmpty_def Let_def)


subsection \<open>Query parameters\<close>

lemma queryStep_render:
  "queryStep lib cls e q =
     (case renderQueryValue lib cls (snd e) of None \<Rightarrow> q | Some v \<Rightarrow> valuesAdd q (fst e) v)"
  by (simp add: queryStep_def renderQueryValue_def split: arg.splits jvalue.splits)

lemma fold_queryStep:
  "distinct (map fst Q) \<Longrightarrow>
   fold (queryStep lib cls) Q existing key =
     (case map_of Q key of
        None \<Rightarrow> existing key
      | Some a \<Rightarrow>
          (case renderQueryValue lib cls a of
             None \<Rightarrow> existing key
           | Some v \<Rightarrow> Some ((case existing key of None \<Rightarrow> [] | Some vs \<Rightarrow> vs) @ [v])))"
proof (induction Q arbitrary: existing)
  case Nil
  then show ?case by simp
next
  case (Cons e Q)
  have d: "distinct (map fst Q)" and n: "fst e \<notin> fst ` set Q" using Cons.prems by auto
  have ih: "fold (queryStep lib cls) Q (queryStep lib cls e existing) key =
     (case map_of Q key of
        None \<Rightarrow> queryStep lib cls e existing key
      | Some a \<Rightarrow>
          (case renderQueryValue lib cls a of
             None \<Rightarrow> queryStep lib cls e existing key
           | Some v \<Rightarrow> Some ((case queryStep lib cls e existing key of None \<Rightarrow> [] | Some vs \<Rightarrow> vs) @ [v])))"
    by (rule Cons.IH [OF d])
  have lhs: "fold (queryStep lib cls) (e # Q) existing key =
      fold (queryStep lib cls) Q (queryStep lib cls e existing) key"
    by simp
  show ?case
  proof (cases "key = fst e")
    case True
    have none: "map_of Q key = None" using n True by (simp add: map_of_eq_None_iff)
    have sv: "queryStep lib cls e existing key =
        (case renderQueryValue lib cls (snd e) of
           None \<Rightarrow> existing key
         | Some v \<Rightarrow> Some ((case existing key of None \<Rightarrow> [] | Some vs \<Rightarrow> vs) @ [v]))"
      using True by (simp add: queryStep_render valuesAdd_def split: option.splits)
    have m: "map_of (e # Q) key = Some (snd e)" using True by (cases e) simp
    show ?thesis unfolding lhs ih none m using sv by simp
  next
    case False
    have sv: "queryStep lib cls e existing key = existing key"
      using False by (simp add: queryStep_render valuesAdd_def split: option.splits)
    have m: "map_of (e # Q) key = map_of Q key" using False by (cases e) simp
    show ?thesis unfolding lhs ih m sv by simp
  qed
qed

lemma fold_queryStep_values:
  "distinct (map fst (queryParams cls)) \<Longrightarrow>
   fold (queryStep lib cls) (queryParams cls) existing = queryValues lib cls existing"
  unfolding queryValues_def by (rule ext) (rule fold_queryStep)

lemma view_plain: "view cls (Plain v) = Tree v"
  by (simp add: view_def)

lemma renderQueryValue_plain:
  "renderQueryValue lib cls (Plain v) = renderQueryValue lib cls' (Plain v)"
  by (simp add: renderQueryValue_def view_plain split: jvalue.splits)

lemma map_of_plainEntries: "map_of (plainEntries m) k = map_option Plain (map_of m k)"
  unfolding plainEntries_def by (induction m) auto

lemma keys_plainEntries: "map fst (plainEntries m) = map fst m"
  by (simp add: plainEntries_def)

lemma queryValues_plain_order:
  assumes "distinct (map fst m)" "distinct (map fst m')" "set m = set m'"
  shows "queryValues lib (cls\<lparr> queryParams := plainEntries m \<rparr>) existing =
         queryValues lib (cls'\<lparr> queryParams := plainEntries m' \<rparr>) existing"
proof (rule ext)
  fix key
  have "map_of m = map_of m'" using assms by (rule map_of_inject_set [THEN iffD2])
  then have mo: "map_of m key = map_of m' key" by simp
  show "queryValues lib (cls\<lparr> queryParams := plainEntries m \<rparr>) existing key =
        queryValues lib (cls'\<lparr> queryParams := plainEntries m' \<rparr>) existing key"
  proof (cases "map_of m' key")
    case None
    then show ?thesis using mo by (simp add: queryValues_def map_of_plainEntries)
  next
    case (Some v)
    have "renderQueryValue lib (cls\<lparr> queryParams := plainEntries m \<rparr>) (Plain v) =
          renderQueryValue lib (cls'\<lparr> queryParams := plainEntries m' \<rparr>) (Plain v)"
      by (rule renderQueryValue_plain)
    then show ?thesis using mo Some by (simp add: queryValues_def map_of_plainEntries)
  qed
qed

subsection \<open>Body and headers\<close>

lemma map_of_headerSet:
  "map_of (headerSet lib kv h) K =
     (if K = canonicalHeaderKey lib (fst kv) then Some [snd kv] else map_of h K)"
  by (simp add: headerSet_def update_conv')

lemma fold_headerSet_miss:
  "K \<notin> canonicalHeaderKey lib ` fst ` set xs \<Longrightarrow>
   map_of (fold (headerSet lib) xs h) K = map_of h K"
  by (induction xs arbitrary: h) (auto simp: map_of_headerSet)

lemma fold_headerSet_hit:
  "canonicalHeaderKey lib k \<notin> canonicalHeaderKey lib ` fst ` set ys \<Longrightarrow>
   map_of (fold (headerSet lib) (xs @ (k, v) # ys) h) (canonicalHeaderKey lib k) = Some [v]"
  by (simp add: fold_headerSet_miss map_of_headerSet)

lemma buildRequest_Inr:
  assumes "buildRequest lib method url extraHeaders params = Inr req"
  shows "\<exists>finalURL reqBody.
      addQuery lib (classify url params) (resolvePath lib (classify url params) url) = Inr finalURL
      \<and> marshalBody lib (classify url params) = Inr reqBody
      \<and> newRequestError lib method finalURL = None
      \<and> req = \<lparr> req_Method = method, req_URL = finalURL, req_Body = reqBody,
                req_Header = setHeaders lib reqBody extraHeaders \<rparr>"
  using assms by (auto simp: buildRequest_def Let_def split: sum.splits option.splits)

lemma marshalBody_Inr:
  "marshalBody lib cls = Inr reqBody \<Longrightarrow>
     (bodyParams cls = [] \<longrightarrow> reqBody = None)
     \<and> (bodyParams cls \<noteq> [] \<longrightarrow> (\<exists>json. jsonMarshal lib (bodyView cls) = Inr json \<and> reqBody = Some json))"
  by (auto simp: marshalBody_def split: if_splits sum.splits)

lemma bodyView_plainEntries:
  "bodyParams cls = plainEntries m \<Longrightarrow> bodyView cls = Tree (JObj m)"
  by (simp add: bodyView_def plainEntries_def list_all_iff comp_def)

subsection \<open>Placeholders in a well-formed template\<close>

lemma placeholder_nonempty [simp]: "placeholderOf n \<noteq> []"
  by (simp add: placeholderOf_def)

lemma hd_placeholder [simp]: "hd (placeholderOf n) = CHR ''{''"
  by (simp add: placeholderOf_def)

lemma HasPrefix_hd: "old \<noteq> [] \<Longrightarrow> c \<noteq> hd old \<Longrightarrow> \<not> HasPrefix (c # cs) old"
  by (cases old) (auto simp: HasPrefix_def)

lemma ReplaceAll_skip:
  "old \<noteq> [] \<Longrightarrow> \<forall>c\<in>set xs. c \<noteq> hd old \<Longrightarrow>
   ReplaceAll (xs @ rest) old new = xs @ ReplaceAll rest old new"
  by (induction xs) (auto simp: ReplaceAll_Cons HasPrefix_hd)

lemma ReplaceAll_hit:
  "old \<noteq> [] \<Longrightarrow> ReplaceAll (old @ rest) old new = new @ ReplaceAll rest old new"
  by (subst ReplaceAll.simps) (simp add: HasPrefix_def)

lemma stepToken_Lit: "stepToken n v (Lit c) = [Lit c]"
  by (simp add: stepToken_def)

lemma stepToken_Hole: "stepToken n v (Hole m) = (if m = n then map Lit v else [Hole m])"
  by (simp add: stepToken_def)

lemma other_placeholder_no_prefix:
  assumes "braceFree m" "braceFree n" "m \<noteq> n"
  shows "\<not> HasPrefix (placeholderOf m @ rest) (placeholderOf n)"
proof
  assume "HasPrefix (placeholderOf m @ rest) (placeholderOf n)"
  then obtain ys where "placeholderOf m @ rest = placeholderOf n @ ys"
    by (auto simp: HasPrefix_iff)
  then have e: "m @ CHR ''}'' # rest = n @ CHR ''}'' # ys" by (simp add: placeholderOf_def)
  then obtain us where "(m = n @ us \<and> us @ CHR ''}'' # rest = CHR ''}'' # ys)
      \<or> (m @ us = n \<and> CHR ''}'' # rest = us @ CHR ''}'' # ys)"
    by (auto simp: append_eq_append_conv2)
  then show False
  proof
    assume a: "m = n @ us \<and> us @ CHR ''}'' # rest = CHR ''}'' # ys"
    show False
    proof (cases us)
      case Nil
      with a assms(3) show False by simp
    next
      case (Cons u us')
      with a have "u = CHR ''}''" "u \<in> set m" by auto
      with assms(1) show False by (simp add: braceFree_def)
    qed
  next
    assume a: "m @ us = n \<and> CHR ''}'' # rest = us @ CHR ''}'' # ys"
    show False
    proof (cases us)
      case Nil
      with a assms(3) show False by simp
    next
      case (Cons u us')
      with a have "u = CHR ''}''" "u \<in> set n" by auto
      with assms(2) show False by (simp add: braceFree_def)
    qed
  qed
qed

lemma ReplaceAll_other_placeholder:
  assumes "braceFree m" "braceFree n" "m \<noteq> n"
  shows "ReplaceAll (placeholderOf m @ rest) (placeholderOf n) new =
         placeholderOf m @ ReplaceAll rest (placeholderOf n) new"
proof -
  have np: "\<not> HasPrefix (CHR ''{'' # m @ CHR ''}'' # rest) (placeholderOf n)"
    using other_placeholder_no_prefix [OF assms, of rest] by (simp add: placeholderOf_def)
  have "ReplaceAll (CHR ''{'' # m @ CHR ''}'' # rest) (placeholderOf n) new =
      CHR ''{'' # ReplaceAll (m @ CHR ''}'' # rest) (placeholderOf n) new"
    using np by (simp add: ReplaceAll_Cons)
  also have "ReplaceAll (m @ CHR ''}'' # rest) (placeholderOf n) new =
      ReplaceAll ((m @ ''}'') @ rest) (placeholderOf n) new" by simp
  also have "\<dots> = (m @ ''}'') @ ReplaceAll rest (placeholderOf n) new"
    using assms(1) by (intro ReplaceAll_skip) (auto simp: braceFree_def)
  finally show ?thesis by (simp add: placeholderOf_def)
qed

lemma templateText_Lits [simp]: "templateText (map Lit v) = v"
  by (induction v) (auto simp: templateText_def tokenText_def)

lemma templateText_append [simp]: "templateText (xs @ ys) = templateText xs @ templateText ys"
  by (simp add: templateText_def)

lemma templateText_Cons [simp]: "templateText (t # ts) = tokenText t @ templateText ts"
  by (simp add: templateText_def)

lemma ReplaceAll_template:
  assumes "list_all wellFormedToken ts" "braceFree n"
  shows "ReplaceAll (templateText ts) (placeholderOf n) v =
         templateText (concat (map (stepToken n v) ts))"
  using assms(1)
proof (induction ts)
  case Nil
  then show ?case by (simp add: templateText_def)
next
  case (Cons t ts)
  then have ih: "ReplaceAll (templateText ts) (placeholderOf n) v =
         templateText (concat (map (stepToken n v) ts))" by simp
  show ?case
  proof (cases t)
    case (Lit c)
    then have "c \<noteq> CHR ''{''" using Cons.prems by (simp add: wellFormedToken_def)
    then have "ReplaceAll ([c] @ templateText ts) (placeholderOf n) v =
        [c] @ ReplaceAll (templateText ts) (placeholderOf n) v"
      by (intro ReplaceAll_skip) auto
    then show ?thesis using Lit ih by (simp add: tokenText_def stepToken_Lit)
  next
    case (Hole m)
    then have bm: "braceFree m" using Cons.prems by (simp add: wellFormedToken_def)
    show ?thesis
    proof (cases "m = n")
      case True
      then show ?thesis using Hole ih
        by (simp add: tokenText_def stepToken_Hole ReplaceAll_hit)
    next
      case False
      then show ?thesis using Hole ih ReplaceAll_other_placeholder [OF bm assms(2) False]
        by (simp add: tokenText_def stepToken_Hole)
    qed
  qed
qed

lemma stepToken_wf:
  assumes "list_all wellFormedToken ts" "CHR ''{'' \<notin> set v"
  shows "list_all wellFormedToken (concat (map (stepToken n v) ts))"
proof -
  have "list_all wellFormedToken (stepToken n v t)" if "wellFormedToken t" for t
    using that assms(2) by (cases t) (auto simp: stepToken_def list_all_iff wellFormedToken_def)
  then show ?thesis using assms(1) by (induction ts) auto
qed

lemma pathStep_ReplaceAll:
  "pathStep lib cls e u = ReplaceAll u (placeholderOf (fst e)) (renderPathValue lib cls (snd e))"
  by (simp add: pathStep_def Let_def ReplaceAll_absent)

lemma substitute_after_step:
  "concat (map (substituteToken lib cls P) (stepToken n (renderPathValue lib cls a) t)) =
   substituteToken lib cls ((n, a) # P) t"
proof (cases t)
  case (Lit c)
  then show ?thesis by (simp add: stepToken_Lit substituteToken_def)
next
  case (Hole m)
  have lits: "concat (map (substituteToken lib cls P) (map Lit v)) = v" for v
    by (induction v) (auto simp: substituteToken_def)
  show ?thesis
  proof (cases "m = n")
    case True
    then show ?thesis using Hole lits by (simp add: stepToken_Hole substituteToken_def)
  next
    case False
    then show ?thesis using Hole by (simp add: stepToken_Hole substituteToken_def)
  qed
qed

lemma concat_map_concat:
  "concat (map f (concat (map g ts))) = concat (map (\<lambda>t. concat (map f (g t))) ts)"
  by (induction ts) auto

lemma fold_pathStep_template:
  assumes "list_all wellFormedToken ts"
    "\<forall>e\<in>set P. braceFree (fst e) \<and> CHR ''{'' \<notin> set (renderPathValue lib cls (snd e))"
  shows "fold (pathStep lib cls) P (templateText ts) =
         concat (map (substituteToken lib cls P) ts)"
  using assms
proof (induction P arbitrary: ts)
  case Nil
  have "substituteToken lib cls [] t = tokenText t" for t
    by (cases t) (simp_all add: substituteToken_def tokenText_def)
  then show ?case by (simp add: templateText_def)
next
  case (Cons e P)
  obtain n a where e: "e = (n, a)" by (cases e)
  let ?v = "renderPathValue lib cls a"
  let ?ts = "concat (map (stepToken n ?v) ts)"
  have bn: "braceFree n" and bv: "CHR ''{'' \<notin> set ?v" using Cons.prems(2) e by auto
  have step: "pathStep lib cls e (templateText ts) = templateText ?ts"
    using ReplaceAll_template [OF Cons.prems(1) bn, of ?v] by (simp add: pathStep_ReplaceAll e)
  have wf: "list_all wellFormedToken ?ts" using Cons.prems(1) bv by (rule stepToken_wf)
  have rest: "\<forall>e\<in>set P. braceFree (fst e) \<and> CHR ''{'' \<notin> set (renderPathValue lib cls (snd e))"
    using Cons.prems(2) by simp
  have "fold (pathStep lib cls) (e # P) (templateText ts) =
      fold (pathStep lib cls) P (templateText ?ts)"
    by (simp add: step)
  also have "\<dots> = concat (map (substituteToken lib cls P) ?ts)"
    using Cons.IH [OF wf rest] .
  also have "\<dots> = concat (map (substituteToken lib cls (e # P)) ts)"
    by (simp add: concat_map_concat substitute_after_step e)
  finally show ?case .
qed

subsection \<open>Requests in the grouped form\<close>



lemma pathStep_plain:
  "pathStep lib cls (k, Plain v) = pathStep lib cls' (k, Plain v)"
  by (intro ext) (simp add: pathStep_def Let_def renderPathValue_def view_plain split: jvalue.splits)

lemma fold_pathStep_plain:
  "fold (pathStep lib cls) (plainEntries P) url = fold (pathStep lib cls') (plainEntries P) url"
proof (induction P arbitrary: url)
  case Nil
  then show ?case by (simp add: plainEntries_def)
next
  case (Cons e P)
  have "pathStep lib cls (fst e, Plain (snd e)) = pathStep lib cls' (fst e, Plain (snd e))"
    by (rule pathStep_plain)
  then show ?case using Cons.IH by (simp add: plainEntries_def)
qed

lemma queryStep_plain:
  "queryStep lib cls (k, Plain v) = queryStep lib cls' (k, Plain v)"
  by (intro ext) (simp add: queryStep_def view_plain split: jvalue.splits)

lemma fold_queryStep_plain:
  "fold (queryStep lib cls) (plainEntries Q) q = fold (queryStep lib cls') (plainEntries Q) q"
proof (induction Q arbitrary: q)
  case Nil
  then show ?case by (simp add: plainEntries_def)
next
  case (Cons e Q)
  have "queryStep lib cls (fst e, Plain (snd e)) = queryStep lib cls' (fst e, Plain (snd e))"
    by (rule queryStep_plain)
  then show ?case using Cons.IH by (simp add: plainEntries_def)
qed

lemma addQuery_plain:
  assumes "queryParams cls = plainEntries Q" "queryParams cls' = plainEntries Q"
  shows "addQuery lib cls u = addQuery lib cls' u"
  using fold_queryStep_plain [of lib cls Q _ cls']
  by (simp add: addQuery_def assms split: sum.splits)

lemma marshalBody_plain:
  assumes "bodyParams cls = plainEntries B" "bodyParams cls' = plainEntries B"
  shows "marshalBody lib cls = marshalBody lib cls'"
  using bodyView_plainEntries [OF assms(1)] bodyView_plainEntries [OF assms(2)]
  by (simp add: marshalBody_def assms)

lemma plainEntries_append: "plainEntries (xs @ ys) = plainEntries xs @ plainEntries ys"
  by (simp add: plainEntries_def)

lemma plainEntries_Cons: "plainEntries (e # ys) = (fst e, Plain (snd e)) # plainEntries ys"
  by (simp add: plainEntries_def)


lemma buildRequest_grouped:
  assumes "\<not> groupsEmpty params"
  shows "buildRequest lib method url extraHeaders params =
     (case addQuery lib
             \<lparr> pathParams = [], queryParams = plainEntries (groupOrEmpty params ''searchParams''),
               bodyParams = [] \<rparr>
             (fold (pathStep lib \<lparr> pathParams = [], queryParams = [], bodyParams = [] \<rparr>)
                (plainEntries (groupOrEmpty params ''pathNames'')) url) of
        Inl msg \<Rightarrow> Inl msg
      | Inr finalURL \<Rightarrow>
          (case marshalBody lib
                  \<lparr> pathParams = [], queryParams = [],
                    bodyParams = plainEntries (groupOrEmpty params ''requestBody'') \<rparr> of
             Inl msg \<Rightarrow> Inl msg
           | Inr reqBody \<Rightarrow>
               (case newRequestError lib method finalURL of
                  Some err \<Rightarrow> Inl (''Error creating request: '' @ err)
                | None \<Rightarrow>
                    Inr \<lparr> req_Method = method, req_URL = finalURL, req_Body = reqBody,
                          req_Header = setHeaders lib reqBody extraHeaders \<rparr>)))"
proof -
  let ?cls = "classify url params"
  let ?c = "\<lparr> pathParams = [], queryParams = [], bodyParams = [] \<rparr>"
  have c: "?cls = \<lparr> pathParams = plainEntries (groupOrEmpty params ''pathNames''),
       queryParams = plainEntries (groupOrEmpty params ''searchParams''),
       bodyParams = plainEntries (groupOrEmpty params ''requestBody'') \<rparr>"
    using assms by (rule classify_grouped)
  have pp: "pathParams ?cls = plainEntries (groupOrEmpty params ''pathNames'')" by (simp add: c)
  have p: "resolvePath lib ?cls url =
      fold (pathStep lib ?c) (plainEntries (groupOrEmpty params ''pathNames'')) url"
    unfolding resolvePath_def pp by (rule fold_pathStep_plain)
  have q: "addQuery lib ?cls u = addQuery lib
             \<lparr> pathParams = [], queryParams = plainEntries (groupOrEmpty params ''searchParams''),
               bodyParams = [] \<rparr> u" for u
    by (rule addQuery_plain [where Q = "groupOrEmpty params ''searchParams''"]) (simp_all add: c)
  have b: "marshalBody lib ?cls = marshalBody lib
                  \<lparr> pathParams = [], queryParams = [],
                    bodyParams = plainEntries (groupOrEmpty params ''requestBody'') \<rparr>"
    by (rule marshalBody_plain [where B = "groupOrEmpty params ''requestBody''"]) (simp_all add: c)
  show ?thesis unfolding buildRequest_def Let_def p q b ..
qed

subsection \<open>Concrete evaluations\<close>










lemma example_search_url:
  "addQuery exampleLib searchQuery ''/search'' = Inr ''/search?q=a+b''"
  by code_simp

lemma example_create_request:
  "buildRequest exampleLib ''POST'' ''/users'' [(''X-Api-Key'', ''k'')] createArgs =
     Inr \<lparr> req_Method = ''POST'', req_URL = ''/users'',
           req_Body = Some (''{'' @ quoted ''name'' @ '':'' @ quoted ''x'' @ ''}''),
           req_Header = [(''Content-Type'', [''application/json'']), (''X-Api-Key'', [''k''])] \<rparr>"
  by code_simp




lemma substituteToken_skip:
  "t \<noteq> Hole n \<Longrightarrow>
   substituteToken lib c (ps @ (n, a) # qs) t = substituteToken lib c (ps @ qs) t"
  by (cases t) (auto simp: substituteToken_def map_add_def split: option.splits)

lemma substitute_skip:
  "Hole n \<notin> set ts \<Longrightarrow>
   concat (map (substituteToken lib c (ps @ (n, a) # qs)) ts) =
   concat (map (substituteToken lib c (ps @ qs)) ts)"
  by (induction ts) (auto simp: substituteToken_skip)

lemma plainEntries_values:
  assumes "\<forall>x\<in>set m. braceFree (fst x) \<and> CHR ''{'' \<notin> set (renderPathValue lib c (Plain (snd x)))"
  shows "\<forall>e\<in>set (plainEntries m). braceFree (fst e) \<and> CHR ''{'' \<notin> set (renderPathValue lib c (snd e))"
proof
  fix e assume "e \<in> set (plainEntries m)"
  then obtain x where "x \<in> set m" "e = (fst x, Plain (snd x))" by (auto simp: plainEntries_def)
  then show "braceFree (fst e) \<and> CHR ''{'' \<notin> set (renderPathValue lib c (snd e))"
    using assms by simp
qed

section \<open>The claims\<close>

subsection \<open>C1\<close>

text \<open>
  C1. The specification says that each of the three groups is left out of the tool when its
  property map is empty, and in particular that an operation whose request body declares
  content entries without any property yields no \<open>requestBody\<close> group. The translator
  tests the number of content entries, not the number of properties: for an operation whose
  only content entry is a binary string, a schema without properties, the
  \<open>requestBody\<close> group is present and its property map is empty.
\<close>

theorem requestBody_group_with_no_properties:
  "tool_requestBody (translateOperation ''api'' uploadOperation) =
     Some \<lparr> group_description = ''request body for the tool'',
            group_properties = [], group_required = [] \<rparr>"
  by (simp add: translate_requestBody uploadOperation_def bodyLoop_def mediaTypeStep_def
      schemaProps_def)

subsection \<open>C2\<close>




subsection \<open>C3\<close>




subsection \<open>C4\<close>



subsection \<open>C5\<close>



subsection \<open>C6\<close>



subsection \<open>C7\<close>

text \<open>
  C7. Without query parameters the URL is returned as it is. With query parameters the URL
  is parsed, and its query string becomes the encoding of the values parsed from it with,
  under each key of a query parameter whose value is not nil, the rendered value added
  after the values already there; a parameter whose value is nil adds nothing. The values
  that are encoded do not depend on the order in which the parameters are visited. The
  encoding itself (percent-encoding, keys in sorted order) is that of \<open>q.Encode()\<close>.
\<close>

theorem query_parameters_added:
  "(queryParams cls = [] \<longrightarrow> addQuery lib cls finalURL = Inr finalURL)
   \<and> (queryParams cls \<noteq> [] \<and> urlParse lib finalURL = Inl err \<longrightarrow>
        addQuery lib cls finalURL = Inl (''Error parsing URL: '' @ err))
   \<and> (queryParams cls \<noteq> [] \<and> distinct (map fst (queryParams cls))
        \<and> urlParse lib finalURL = Inr parsedURL \<longrightarrow>
        addQuery lib cls finalURL =
          Inr (urlString lib
                 (parsedURL\<lparr> RawQuery :=
                    valuesEncode lib (queryValues lib cls (parseQuery lib (RawQuery parsedURL))) \<rparr>)))
   \<and> (\<forall>key. map_of (queryParams cls) key = Some (Plain JNull) \<longrightarrow>
        queryValues lib cls existing key = existing key)
   \<and> (\<forall>key. map_of (queryParams cls) key = None \<longrightarrow>
        queryValues lib cls existing key = existing key)
   \<and> (\<forall>key v. map_of (queryParams cls) key = Some (Plain (JStr v)) \<longrightarrow>
        queryValues lib cls existing key =
          Some ((case existing key of None \<Rightarrow> [] | Some vs \<Rightarrow> vs) @ [v]))
   \<and> (\<forall>key a. map_of (queryParams cls) key = Some a \<and> a \<noteq> Plain JNull
          \<and> (\<forall>v. a \<noteq> Plain (JStr v)) \<longrightarrow>
        queryValues lib cls existing key =
          Some ((case existing key of None \<Rightarrow> [] | Some vs \<Rightarrow> vs) @ [fmtValue lib (view cls a)]))
   \<and> (distinct (map fst m) \<and> distinct (map fst m') \<and> set m = set m' \<longrightarrow>
        addQuery lib (cls\<lparr> queryParams := plainEntries m \<rparr>) finalURL =
        addQuery lib (cls\<lparr> queryParams := plainEntries m' \<rparr>) finalURL)"
proof (intro conjI allI impI)
  show "addQuery lib cls finalURL = Inr finalURL" if "queryParams cls = []"
    using that by (simp add: addQuery_def)
  show "addQuery lib cls finalURL = Inl (''Error parsing URL: '' @ err)"
    if "queryParams cls \<noteq> [] \<and> urlParse lib finalURL = Inl err"
    using that by (simp add: addQuery_def)
  show "addQuery lib cls finalURL =
          Inr (urlString lib
                 (parsedURL\<lparr> RawQuery :=
                    valuesEncode lib (queryValues lib cls (parseQuery lib (RawQuery parsedURL))) \<rparr>))"
    if "queryParams cls \<noteq> [] \<and> distinct (map fst (queryParams cls))
        \<and> urlParse lib finalURL = Inr parsedURL"
    using that by (simp add: addQuery_def fold_queryStep_values)
  show "queryValues lib cls existing key = existing key"
    if "map_of (queryParams cls) key = Some (Plain JNull)" for key
    using that by (simp add: queryValues_def renderQueryValue_def)
  show "queryValues lib cls existing key = existing key"
    if "map_of (queryParams cls) key = None" for key
    using that by (simp add: queryValues_def)
  show "queryValues lib cls existing key =
          Some ((case existing key of None \<Rightarrow> [] | Some vs \<Rightarrow> vs) @ [v])"
    if "map_of (queryParams cls) key = Some (Plain (JStr v))" for key v
    using that by (simp add: queryValues_def renderQueryValue_def)
  show "queryValues lib cls existing key =
          Some ((case existing key of None \<Rightarrow> [] | Some vs \<Rightarrow> vs) @ [fmtValue lib (view cls a)])"
    if "map_of (queryParams cls) key = Some a \<and> a \<noteq> Plain JNull \<and> (\<forall>v. a \<noteq> Plain (JStr v))"
    for key a
    using that by (auto simp add: queryValues_def renderQueryValue_def split: arg.splits jvalue.splits)
  show "addQuery lib (cls\<lparr> queryParams := plainEntries m \<rparr>) finalURL =
        addQuery lib (cls\<lparr> queryParams := plainEntries m' \<rparr>) finalURL"
    if h: "distinct (map fst m) \<and> distinct (map fst m') \<and> set m = set m'"
  proof -
    have e: "m = [] \<longleftrightarrow> m' = []" using h by auto
    have q: "queryValues lib (cls\<lparr> queryParams := plainEntries m \<rparr>) ex =
             queryValues lib (cls\<lparr> queryParams := plainEntries m' \<rparr>) ex" for ex
      using h by (intro queryValues_plain_order) auto
    have f: "fold (queryStep lib (cls\<lparr> queryParams := plainEntries m \<rparr>)) (plainEntries m) ex =
             queryValues lib (cls\<lparr> queryParams := plainEntries m \<rparr>) ex" for ex
      using fold_queryStep_values [of "cls\<lparr> queryParams := plainEntries m \<rparr>" lib ex] h
      by (simp add: keys_plainEntries)
    have f': "fold (queryStep lib (cls\<lparr> queryParams := plainEntries m' \<rparr>)) (plainEntries m') ex =
             queryValues lib (cls\<lparr> queryParams := plainEntries m' \<rparr>) ex" for ex
      using fold_queryStep_values [of "cls\<lparr> queryParams := plainEntries m' \<rparr>" lib ex] h
      by (simp add: keys_plainEntries)
    have pe: "plainEntries x = [] \<longleftrightarrow> x = []" for x :: "(string \<times> jvalue) list"
      by (simp add: plainEntries_def)
    show ?thesis using e by (simp add: addQuery_def f f' q pe split: sum.splits)
  qed
qed

theorem query_parameters_added_witness:
  "queryParams searchQuery \<noteq> [] \<and> distinct (map fst (queryParams searchQuery))
   \<and> urlParse exampleLib ''/search'' = Inr \<lparr> RawQuery = [], otherFields = ''/search'' \<rparr>
   \<and> addQuery exampleLib searchQuery ''/search'' = Inr ''/search?q=a+b''
   \<and> map_of (queryParams searchQuery) ''skip'' = Some (Plain JNull)
   \<and> queryValues exampleLib searchQuery Map.empty ''skip'' = None
   \<and> queryValues exampleLib searchQuery Map.empty ''q'' = Some [''a b'']"
proof -
  have n: "queryParams searchQuery \<noteq> []" and d: "distinct (map fst (queryParams searchQuery))"
    by (simp_all add: searchQuery_def)
  have p: "urlParse exampleLib ''/search'' = Inr \<lparr> RawQuery = [], otherFields = ''/search'' \<rparr>"
    by (simp add: exampleLib_def)
  have s: "map_of (queryParams searchQuery) ''skip'' = Some (Plain JNull)"
    by (simp add: searchQuery_def)
  have q: "map_of (queryParams searchQuery) ''q'' = Some (Plain (JStr ''a b''))"
    by (simp add: searchQuery_def)
  note t = query_parameters_added
      [where lib = exampleLib and cls = searchQuery and finalURL = "''/search''"
         and parsedURL = "\<lparr> RawQuery = [], otherFields = ''/search'' \<rparr>"
         and existing = Map.empty]
  have 1: "addQuery exampleLib searchQuery ''/search'' =
          Inr (urlString exampleLib
                 (\<lparr> RawQuery = [], otherFields = ''/search'' \<rparr>\<lparr> RawQuery :=
                    valuesEncode exampleLib
                      (queryValues exampleLib searchQuery
                         (parseQuery exampleLib (RawQuery \<lparr> RawQuery = [], otherFields = ''/search'' \<rparr>))) \<rparr>))"
    using t n d p by blast
  have 2: "queryValues exampleLib searchQuery Map.empty ''skip'' = None"
    using t s by simp
  have 3: "queryValues exampleLib searchQuery Map.empty ''q'' = Some [''a b'']"
    using t q by simp
  show ?thesis using n d p s 2 3 example_search_url by simp
qed

subsection \<open>C8\<close>

text \<open>
  C8. A request that is built carries a body exactly when there is a body parameter, and
  the body is what \<open>json.Marshal\<close> returns for the body parameter map (in the grouped form:
  for the nested \<open>requestBody\<close> map). An extra header overwrites what was set before under
  its canonical key; under a key that no extra header sets, the request has the header
  \<open>Content-Type: application/json\<close> when it has a body, and no header otherwise.
\<close>

theorem body_and_headers:
  "buildRequest lib httpMethod url extraHeaders params = Inr req \<longrightarrow>
     (bodyParams (classify url params) = [] \<longrightarrow> req_Body req = None)
     \<and> (bodyParams (classify url params) \<noteq> [] \<longrightarrow>
          (\<exists>json. jsonMarshal lib (bodyView (classify url params)) = Inr json
                  \<and> req_Body req = Some json))
     \<and> (\<not> groupsEmpty params \<longrightarrow>
          bodyView (classify url params) = Tree (JObj (groupOrEmpty params ''requestBody'')))
     \<and> (\<forall>K. K \<notin> canonicalHeaderKey lib ` fst ` set extraHeaders \<longrightarrow>
          map_of (req_Header req) K =
            (if bodyParams (classify url params) \<noteq> [] \<and> K = canonicalHeaderKey lib ''Content-Type''
             then Some [''application/json''] else None))
     \<and> (\<forall>xs k v ys. extraHeaders = xs @ (k, v) # ys
             \<and> canonicalHeaderKey lib k \<notin> canonicalHeaderKey lib ` fst ` set ys \<longrightarrow>
          map_of (req_Header req) (canonicalHeaderKey lib k) = Some [v])"
proof
  assume b: "buildRequest lib httpMethod url extraHeaders params = Inr req"
  let ?cls = "classify url params"
  from buildRequest_Inr [OF b] obtain finalURL reqBody where
    m: "marshalBody lib ?cls = Inr reqBody"
    and r: "req = \<lparr> req_Method = httpMethod, req_URL = finalURL, req_Body = reqBody,
                req_Header = setHeaders lib reqBody extraHeaders \<rparr>"
    by blast
  note mb = marshalBody_Inr [OF m]
  have rb: "req_Body req = reqBody" and rh: "req_Header req = setHeaders lib reqBody extraHeaders"
    using r by simp_all
  have 1: "bodyParams ?cls = [] \<longrightarrow> req_Body req = None" using mb rb by simp
  have 2: "bodyParams ?cls \<noteq> [] \<longrightarrow>
          (\<exists>json. jsonMarshal lib (bodyView ?cls) = Inr json \<and> req_Body req = Some json)"
    using mb rb by simp
  have 3: "\<not> groupsEmpty params \<longrightarrow>
          bodyView ?cls = Tree (JObj (groupOrEmpty params ''requestBody''))"
    by (auto simp: classify_grouped intro!: bodyView_plainEntries)
  have some: "reqBody \<noteq> None \<longleftrightarrow> bodyParams ?cls \<noteq> []" using mb by auto
  have 4: "map_of (req_Header req) K =
            (if bodyParams ?cls \<noteq> [] \<and> K = canonicalHeaderKey lib ''Content-Type''
             then Some [''application/json''] else None)"
    if "K \<notin> canonicalHeaderKey lib ` fst ` set extraHeaders" for K
  proof -
    have "map_of (req_Header req) K =
        map_of (if reqBody \<noteq> None then headerSet lib (''Content-Type'', ''application/json'') [] else []) K"
      unfolding rh setHeaders_def using that by (rule fold_headerSet_miss)
    then show ?thesis using some by (simp add: map_of_headerSet)
  qed
  have 5: "map_of (req_Header req) (canonicalHeaderKey lib k) = Some [v]"
    if "extraHeaders = xs @ (k, v) # ys
        \<and> canonicalHeaderKey lib k \<notin> canonicalHeaderKey lib ` fst ` set ys" for xs k v ys
  proof -
    from that have e: "extraHeaders = xs @ (k, v) # ys"
      and n: "canonicalHeaderKey lib k \<notin> canonicalHeaderKey lib ` fst ` set ys" by simp_all
    show ?thesis unfolding rh setHeaders_def e by (rule fold_headerSet_hit [OF n])
  qed
  show "(bodyParams ?cls = [] \<longrightarrow> req_Body req = None)
     \<and> (bodyParams ?cls \<noteq> [] \<longrightarrow>
          (\<exists>json. jsonMarshal lib (bodyView ?cls) = Inr json \<and> req_Body req = Some json))
     \<and> (\<not> groupsEmpty params \<longrightarrow>
          bodyView ?cls = Tree (JObj (groupOrEmpty params ''requestBody'')))
     \<and> (\<forall>K. K \<notin> canonicalHeaderKey lib ` fst ` set extraHeaders \<longrightarrow>
          map_of (req_Header req) K =
            (if bodyParams ?cls \<noteq> [] \<and> K = canonicalHeaderKey lib ''Content-Type''
             then Some [''application/json''] else None))
     \<and> (\<forall>xs k v ys. extraHeaders = xs @ (k, v) # ys
             \<and> canonicalHeaderKey lib k \<notin> canonicalHeaderKey lib ` fst ` set ys \<longrightarrow>
          map_of (req_Header req) (canonicalHeaderKey lib k) = Some [v])"
    using 1 2 3 4 5 by blast
qed

theorem body_and_headers_witness:
  "buildRequest exampleLib ''POST'' ''/users'' [(''X-Api-Key'', ''k'')] createArgs =
     Inr \<lparr> req_Method = ''POST'', req_URL = ''/users'',
           req_Body = Some (''{'' @ quoted ''name'' @ '':'' @ quoted ''x'' @ ''}''),
           req_Header = [(''Content-Type'', [''application/json'']), (''X-Api-Key'', [''k''])] \<rparr>
   \<and> bodyParams (classify ''/users'' createArgs) \<noteq> []
   \<and> \<not> groupsEmpty createArgs
   \<and> bodyView (classify ''/users'' createArgs) = Tree (JObj [(''name'', JStr ''x'')])
   \<and> ''Content-Type'' \<notin> canonicalHeaderKey exampleLib ` fst ` set [(''X-Api-Key'', ''k'')]
   \<and> map_of [(''Content-Type'', [''application/json'']), (''X-Api-Key'', [''k''])] ''Content-Type'' =
       Some [''application/json'']"
proof -
  let ?req = "\<lparr> req_Method = ''POST'', req_URL = ''/users'',
           req_Body = Some (''{'' @ quoted ''name'' @ '':'' @ quoted ''x'' @ ''}''),
           req_Header = [(''Content-Type'', [''application/json'']), (''X-Api-Key'', [''k''])] \<rparr>"
  have b: "buildRequest exampleLib ''POST'' ''/users'' [(''X-Api-Key'', ''k'')] createArgs = Inr ?req"
    by (rule example_create_request)
  have g: "\<not> groupsEmpty createArgs"
    by (simp add: groupsEmpty_def groupOrEmpty_def groupMap_def createArgs_def)
  have c: "classify ''/users'' createArgs =
      \<lparr> pathParams = [], queryParams = [], bodyParams = [(''name'', Plain (JStr ''x''))] \<rparr>"
    by code_simp
  have ne: "bodyParams (classify ''/users'' createArgs) \<noteq> []" by (simp add: c)
  have k: "''Content-Type'' \<notin> canonicalHeaderKey exampleLib ` fst ` set [(''X-Api-Key'', ''k'')]"
    by (simp add: exampleLib_def)
  have ck: "canonicalHeaderKey exampleLib ''Content-Type'' = ''Content-Type''"
    by (simp add: exampleLib_def)
  note t = body_and_headers
      [where lib = exampleLib and httpMethod = "''POST''" and url = "''/users''"
         and extraHeaders = "[(''X-Api-Key'', ''k'')]" and params = createArgs and req = ?req]
  have v: "bodyView (classify ''/users'' createArgs) =
      Tree (JObj (groupOrEmpty createArgs ''requestBody''))"
    using t b g by blast
  have h: "map_of (req_Header ?req) ''Content-Type'' =
      (if bodyParams (classify ''/users'' createArgs) \<noteq> []
          \<and> ''Content-Type'' = canonicalHeaderKey exampleLib ''Content-Type''
       then Some [''application/json''] else None)"
    using t b k by blast
  have v': "bodyView (classify ''/users'' createArgs) = Tree (JObj [(''name'', JStr ''x'')])"
    using v by (simp add: groupOrEmpty_def groupMap_def createArgs_def)
  have h': "map_of [(''Content-Type'', [''application/json'']), (''X-Api-Key'', [''k''])] ''Content-Type'' =
       Some [''application/json'']"
    using h ne ck by simp
  show ?thesis using b ne g v' k h' by simp
qed

subsection \<open>C9\<close>


subsection \<open>C10\<close>




text \<open>
  On a well-formed template, with brace-free parameter names and rendered values without an
  opening brace, the condition of the amended C10 holds for every parameter whose
  placeholder is not in the template: leaving such a parameter out does not change the
  request.
\<close>

lemma unused_parameter_well_formed:
  assumes g1: "\<not> groupsEmpty params1" and g2: "\<not> groupsEmpty params2"
    and p1: "groupOrEmpty params1 ''pathNames'' = ps @ (n, v) # qs"
    and p2: "groupOrEmpty params2 ''pathNames'' = ps @ qs"
    and q: "groupOrEmpty params1 ''searchParams'' = groupOrEmpty params2 ''searchParams''"
    and b: "groupOrEmpty params1 ''requestBody'' = groupOrEmpty params2 ''requestBody''"
    and wf: "list_all wellFormedToken ts" and absent: "Hole n \<notin> set ts"
    and vals: "\<forall>e\<in>set (ps @ (n, v) # qs). braceFree (fst e)
        \<and> CHR ''{'' \<notin> set (renderPathValue lib
              \<lparr> pathParams = [], queryParams = [], bodyParams = [] \<rparr> (Plain (snd e)))"
  shows "buildRequest lib httpMethod (templateText ts) extraHeaders params1 =
         buildRequest lib httpMethod (templateText ts) extraHeaders params2"
proof -
  let ?c = "\<lparr> pathParams = [], queryParams = [], bodyParams = [] \<rparr>"
  have v1: "\<forall>e\<in>set (plainEntries (ps @ (n, v) # qs)).
      braceFree (fst e) \<and> CHR ''{'' \<notin> set (renderPathValue lib ?c (snd e))"
    using vals by (rule plainEntries_values)
  have "\<forall>x\<in>set (ps @ qs). braceFree (fst x)
        \<and> CHR ''{'' \<notin> set (renderPathValue lib ?c (Plain (snd x)))"
    using vals by simp
  then have v2: "\<forall>e\<in>set (plainEntries (ps @ qs)).
      braceFree (fst e) \<and> CHR ''{'' \<notin> set (renderPathValue lib ?c (snd e))"
    by (rule plainEntries_values)
  have "fold (pathStep lib ?c) (plainEntries (ps @ (n, v) # qs)) (templateText ts) =
      concat (map (substituteToken lib ?c (plainEntries (ps @ (n, v) # qs))) ts)"
    using wf v1 by (rule fold_pathStep_template)
  also have "\<dots> = concat (map (substituteToken lib ?c (plainEntries (ps @ qs))) ts)"
    using substitute_skip [OF absent, of lib ?c "plainEntries ps" "Plain v" "plainEntries qs"]
    by (simp add: plainEntries_append plainEntries_Cons)
  also have "\<dots> = fold (pathStep lib ?c) (plainEntries (ps @ qs)) (templateText ts)"
    using wf v2 by (rule fold_pathStep_template [symmetric])
  finally have f: "fold (pathStep lib ?c) (plainEntries (groupOrEmpty params1 ''pathNames'')) (templateText ts) =
      fold (pathStep lib ?c) (plainEntries (groupOrEmpty params2 ''pathNames'')) (templateText ts)"
    unfolding p1 p2 .
  show ?thesis
    unfolding buildRequest_grouped [OF g1] buildRequest_grouped [OF g2] f q b ..
qed

end
